theory Spec2Isabelle
  imports Complex_Main
begin

section \<open>The ICD-10 code predictor of \<open>IcdCodePredictor.tsx\<close>\<close>

text \<open>
  The component's only algorithm is \<open>predictIcdCode\<close>: a keyword-overlap heuristic over
  six hardcoded (diagnosis, code) pairs. This theory embeds that function, together with
  the fragment of the JavaScript string and number library it calls, and proves the
  properties the specification states about it.
\<close>

subsection \<open>JavaScript strings\<close>

text \<open>
  A JavaScript string is a sequence of UTF-16 code units. A \<^typ>\<open>char\<close> stands for the
  code unit with the same number, so the strings of this theory are exactly the strings
  whose code units lie below 256 (Basic Latin and the Latin-1 Supplement). That range is
  closed under \<open>toLowerCase\<close>, and on it the library functions below are the ones of
  ECMAScript: the upper-case letters are \<open>A\<close>..\<open>Z\<close> (65..90) and \<open>U+00C0\<close>..\<open>U+00DE\<close>
  without the multiplication sign \<open>U+00D7\<close> (215), each 32 below its lower-case letter;
  the characters \<open>trim\<close> strips are TAB, LF, VT, FF, CR (9..13), the space (32) and
  the no-break space (160).
\<close>

definition is_upper :: "char \<Rightarrow> bool" where
  "is_upper c =
     (let n = (of_char c :: nat)
      in (65 \<le> n \<and> n \<le> 90) \<or> (192 \<le> n \<and> n \<le> 222 \<and> n \<noteq> 215))"

definition lower_char :: "char \<Rightarrow> char" where
  "lower_char c = (if is_upper c then char_of (of_char c + (32 :: nat)) else c)"

definition toLowerCase :: "string \<Rightarrow> string" where
  "toLowerCase s = map lower_char s"

definition is_whitespace :: "char \<Rightarrow> bool" where
  "is_whitespace c =
     (let n = (of_char c :: nat) in (9 \<le> n \<and> n \<le> 13) \<or> n = 32 \<or> n = 160)"

definition trim :: "string \<Rightarrow> string" where
  "trim s = rev (dropWhile is_whitespace (rev (dropWhile is_whitespace s)))"

text \<open>
  \<open>s.split(sep)\<close> for a one-character separator: every occurrence of the separator ends
  a piece, so a string with \<open>k\<close> separators gives \<open>k + 1\<close> pieces, empty ones included
  (\<open>"".split(" ")\<close> is \<open>[""]\<close>, \<open>"a  b".split(" ")\<close> is \<open>["a", "", "b"]\<close>). The first
  argument of \<open>split_from\<close> is the piece read so far.
\<close>

fun split_from :: "string \<Rightarrow> char \<Rightarrow> string \<Rightarrow> string list" where
  "split_from cur sep [] = [cur]"
| "split_from cur sep (c # cs) =
     (if c = sep then cur # split_from [] sep cs else split_from (cur @ [c]) sep cs)"

definition split_on :: "char \<Rightarrow> string \<Rightarrow> string list" where
  "split_on sep s = split_from [] sep s"

text \<open>\<open>s.includes(sub)\<close>: \<open>sub\<close> occurs in \<open>s\<close> at some position.\<close>

fun starts_with :: "string \<Rightarrow> string \<Rightarrow> bool" where
  "starts_with s [] = True"
| "starts_with [] (p # ps) = False"
| "starts_with (c # cs) (p # ps) = (c = p \<and> starts_with cs ps)"

fun includes_str :: "string \<Rightarrow> string \<Rightarrow> bool" where
  "includes_str [] sub = (sub = [])"
| "includes_str (c # cs) sub = (starts_with (c # cs) sub \<or> includes_str cs sub)"

text \<open>\<open>xs.some(p)\<close>: the elements are tested in order, up to the first that passes.\<close>

fun array_some :: "('a \<Rightarrow> bool) \<Rightarrow> 'a list \<Rightarrow> bool" where
  "array_some p [] = False"
| "array_some p (x # xs) = (if p x then True else array_some p xs)"

subsection \<open>JavaScript numbers\<close>

text \<open>
  Numbers are modelled by exact rationals: the rounding of IEEE doubles is not part of
  the model. What is kept of the double arithmetic is the outcome of a division by
  zero, which does not raise in JavaScript: \<open>0 / 0\<close> is \<open>NaN\<close> and \<open>m / 0\<close> is
  \<open>Infinity\<close> for a positive \<open>m\<close>.
\<close>

datatype quotient = Finite rat | PosInfinity | NaN

definition js_div :: "nat \<Rightarrow> nat \<Rightarrow> quotient" where
  "js_div m n =
     (if n = 0 then (if m = 0 then NaN else PosInfinity) else Finite (of_nat m / of_nat n))"

text \<open>
  \<open>Math.min(0.95, q * 0.9 + 0.1)\<close>. \<open>Infinity * 0.9 + 0.1\<close> is \<open>Infinity\<close>, whose
  minimum with 0.95 is 0.95; \<open>NaN\<close> propagates through the arithmetic and through
  \<open>Math.min\<close>, and is the result \<open>None\<close>.
\<close>

fun scaled_confidence :: "quotient \<Rightarrow> rat option" where
  "scaled_confidence (Finite q) = Some (min (95 / 100) (q * (9 / 10) + 1 / 10))"
| "scaled_confidence PosInfinity = Some (95 / 100)"
| "scaled_confidence NaN = None"

subsection \<open>The data\<close>

record SampleEntry =
  diagnosis :: string
  sample_code :: string

record PredictionResult =
  code :: string
  confidence :: rat
  description :: string

definition sampleData :: "SampleEntry list" where
  "sampleData =
     [\<lparr>diagnosis = ''Type 2 diabetes mellitus'', sample_code = ''E11.9''\<rparr>,
      \<lparr>diagnosis = ''Essential hypertension'', sample_code = ''I10''\<rparr>,
      \<lparr>diagnosis = ''Acute bronchitis'', sample_code = ''J20.9''\<rparr>,
      \<lparr>diagnosis = ''Migraine'', sample_code = ''G43.9''\<rparr>,
      \<lparr>diagnosis = ''Chronic kidney disease'', sample_code = ''N18.9''\<rparr>,
      \<lparr>diagnosis = ''Asthma'', sample_code = ''J45.9''\<rparr>]"

definition fallback :: PredictionResult where
  "fallback =
     \<lparr>code = ''Z00.00'', confidence = 3 / 10, description = ''General medical examination''\<rparr>"

subsection \<open>\<open>predictIcdCode\<close>\<close>

text \<open>
  The \<open>forEach\<close> over the words of a sample: \<open>matchCount\<close> goes up by one for each
  sample word that some input word contains or is contained in.
\<close>

definition word_matches :: "string list \<Rightarrow> string \<Rightarrow> bool" where
  "word_matches inputWords word =
     array_some (\<lambda>inputWord. includes_str inputWord word \<or> includes_str word inputWord) inputWords"

fun count_matches :: "string list \<Rightarrow> string list \<Rightarrow> nat \<Rightarrow> nat" where
  "count_matches inputWords [] matchCount = matchCount"
| "count_matches inputWords (word # rest) matchCount =
     count_matches inputWords rest
       (if word_matches inputWords word then matchCount + 1 else matchCount)"

text \<open>The body of the \<open>for\<close> loop up to the constant \<open>confidence\<close>.\<close>

definition sample_confidence :: "string \<Rightarrow> SampleEntry \<Rightarrow> rat option" where
  "sample_confidence normalizedInput sample =
     (let sampleWords = split_on CHR '' '' (toLowerCase (diagnosis sample));
          inputWords = split_on CHR '' '' normalizedInput;
          matchCount = count_matches inputWords sampleWords 0
      in scaled_confidence (js_div matchCount (length sampleWords)))"

text \<open>
  The \<open>for\<close> loop over the table, with \<open>bestMatch\<close> as its state. The comparison
  \<open>confidence > bestMatch.confidence\<close> is false when \<open>confidence\<close> is \<open>NaN\<close>.
\<close>

fun scan_samples :: "string \<Rightarrow> SampleEntry list \<Rightarrow> PredictionResult \<Rightarrow> PredictionResult" where
  "scan_samples normalizedInput [] bestMatch = bestMatch"
| "scan_samples normalizedInput (sample # rest) bestMatch =
     scan_samples normalizedInput rest
       (case sample_confidence normalizedInput sample of
          None \<Rightarrow> bestMatch
        | Some c \<Rightarrow>
            if c > confidence bestMatch
            then \<lparr>code = sample_code sample, confidence = c, description = diagnosis sample\<rparr>
            else bestMatch)"

text \<open>
  The source closes over the constant \<open>sampleData\<close>; \<open>predict_over\<close> is the same body
  with the table as an argument.
\<close>

definition predict_over :: "SampleEntry list \<Rightarrow> string \<Rightarrow> PredictionResult" where
  "predict_over samples input =
     (let normalizedInput = trim (toLowerCase input)
      in scan_samples normalizedInput samples fallback)"

definition predictIcdCode :: "string \<Rightarrow> PredictionResult" where
  "predictIcdCode input = predict_over sampleData input"

subsection \<open>The specification's matcher\<close>

text \<open>
  The definitions of this subsection follow the words of the specification, not the
  code: containment of one token in another as the existence of a position, the matched
  label tokens as those for which some input token is related by containment in either
  direction, the score by its formula, and the selection as a left-to-right pass that
  replaces the running best on a strictly greater score.
\<close>

definition is_substring :: "string \<Rightarrow> string \<Rightarrow> bool" where
  "is_substring sub s = (\<exists>ps ss. s = ps @ sub @ ss)"

definition spec_matched :: "string list \<Rightarrow> string \<Rightarrow> bool" where
  "spec_matched inputTokens labelToken =
     (\<exists>t\<in>set inputTokens. is_substring t labelToken \<or> is_substring labelToken t)"

definition spec_score :: "string \<Rightarrow> SampleEntry \<Rightarrow> rat" where
  "spec_score input entry =
     (let labelTokens = split_on CHR '' '' (toLowerCase (diagnosis entry));
          inputTokens = split_on CHR '' '' (trim (toLowerCase input));
          m = length (filter (spec_matched inputTokens) labelTokens);
          n = length labelTokens
      in min (95 / 100) ((of_nat m / of_nat n) * (9 / 10) + 1 / 10))"

definition result_of :: "SampleEntry \<Rightarrow> rat \<Rightarrow> PredictionResult" where
  "result_of entry c = \<lparr>code = sample_code entry, confidence = c, description = diagnosis entry\<rparr>"

definition spec_step :: "string \<Rightarrow> PredictionResult \<Rightarrow> SampleEntry \<Rightarrow> PredictionResult" where
  "spec_step input best entry =
     (if spec_score input entry > confidence best
      then result_of entry (spec_score input entry) else best)"

definition spec_match :: "string \<Rightarrow> SampleEntry list \<Rightarrow> PredictionResult" where
  "spec_match input refs = foldl (spec_step input) fallback refs"

section \<open>Properties\<close>

subsection \<open>The string library\<close>

lemma starts_with_iff: "starts_with s p \<longleftrightarrow> (\<exists>ss. s = p @ ss)"
  by (induction s p rule: starts_with.induct) auto

lemma includes_str_iff: "includes_str s sub \<longleftrightarrow> is_substring sub s"
proof (induction s)
  case Nil
  show ?case by (auto simp: is_substring_def)
next
  case (Cons c cs)
  have "is_substring sub (c # cs) \<longleftrightarrow> (\<exists>ss. c # cs = sub @ ss) \<or> is_substring sub cs"
    unfolding is_substring_def
    by (auto simp: Cons_eq_append_conv)
  with Cons show ?case by (simp add: starts_with_iff)
qed

lemma includes_str_empty: "includes_str s []"
  by (induction s) simp_all

lemma array_some_iff: "array_some p xs \<longleftrightarrow> (\<exists>x\<in>set xs. p x)"
  by (induction xs) auto

lemma split_from_not_Nil: "split_from cur sep s \<noteq> []"
  by (induction s arbitrary: cur) auto

lemma split_on_not_Nil: "split_on sep s \<noteq> []"
  by (simp add: split_on_def split_from_not_Nil)

lemma of_char_lower: "is_upper c \<Longrightarrow> of_char (lower_char c) = (of_char c :: nat) + 32"
  by (auto simp: lower_char_def is_upper_def Let_def)

lemma lower_char_idem: "lower_char (lower_char c) = lower_char c"
proof (cases "is_upper c")
  case True
  then have "\<not> is_upper (lower_char c)"
    using of_char_lower[OF True] by (auto simp: is_upper_def Let_def)
  then show ?thesis by (simp add: lower_char_def)
next
  case False
  then show ?thesis by (simp add: lower_char_def)
qed

lemma toLowerCase_idem: "toLowerCase (toLowerCase s) = toLowerCase s"
  by (simp add: toLowerCase_def lower_char_idem)

lemma lower_char_whitespace: "is_whitespace c \<Longrightarrow> lower_char c = c"
  by (auto simp: lower_char_def is_upper_def is_whitespace_def Let_def)

lemma trim_all_whitespace:
  assumes "\<forall>c\<in>set s. is_whitespace c"
  shows "trim (toLowerCase s) = []"
proof -
  have lower: "toLowerCase s = s"
    using assms by (simp add: toLowerCase_def lower_char_whitespace map_idI)
  have dropped: "dropWhile is_whitespace s = []"
    using assms by simp
  show ?thesis unfolding trim_def lower dropped by simp
qed

subsection \<open>The score of one entry\<close>

lemma count_matches_filter:
  "count_matches iw ws k = k + length (filter (word_matches iw) ws)"
  by (induction ws arbitrary: k) auto

lemma word_matches_spec: "word_matches iw = spec_matched iw"
  by (rule ext) (auto simp: word_matches_def spec_matched_def array_some_iff includes_str_iff)

lemma sample_confidence_spec:
  "sample_confidence (trim (toLowerCase input)) sample = Some (spec_score input sample)"
proof -
  have "length (split_on CHR '' '' (toLowerCase (diagnosis sample))) \<noteq> 0"
    by (simp add: split_on_not_Nil)
  then show ?thesis
    by (simp add: sample_confidence_def spec_score_def Let_def js_div_def
        count_matches_filter word_matches_spec)
qed

lemma spec_score_eval:
  "sample_confidence (trim (toLowerCase input)) sample = Some c \<Longrightarrow> spec_score input sample = c"
  by (simp add: sample_confidence_spec)

lemma spec_scores_eval:
  "map (sample_confidence (trim (toLowerCase input))) xs = map Some cs \<Longrightarrow>
   map (spec_score input) xs = cs"
  by (induction xs arbitrary: cs) (auto simp: sample_confidence_spec)

lemma spec_score_bounds: "1 / 10 \<le> spec_score input e \<and> spec_score input e \<le> 95 / 100"
  by (simp add: spec_score_def Let_def min_def)

subsection \<open>The pass over the table\<close>

lemma scan_samples_foldl:
  "scan_samples (trim (toLowerCase input)) xs best = foldl (spec_step input) best xs"
  by (induction xs arbitrary: best)
     (simp_all add: sample_confidence_spec spec_step_def result_of_def)

lemma predict_over_spec: "predict_over refs input = spec_match input refs"
  by (simp add: predict_over_def spec_match_def scan_samples_foldl)

lemma foldl_step_keep:
  "\<forall>x\<in>set xs. spec_score input x \<le> confidence best \<Longrightarrow>
   foldl (spec_step input) best xs = best"
  by (induction xs) (simp_all add: spec_step_def)

lemma foldl_step_below:
  "confidence best < c \<Longrightarrow> \<forall>x\<in>set xs. spec_score input x < c \<Longrightarrow>
   confidence (foldl (spec_step input) best xs) < c"
  by (induction xs arbitrary: best) (simp_all add: spec_step_def result_of_def)

lemma foldl_step_first_max:
  assumes "confidence best < spec_score input e"
    and "\<forall>x\<in>set pre. spec_score input x < spec_score input e"
    and "\<forall>x\<in>set post. spec_score input x \<le> spec_score input e"
  shows "foldl (spec_step input) best (pre @ e # post) = result_of e (spec_score input e)"
proof -
  let ?mid = "foldl (spec_step input) best pre"
  have "confidence ?mid < spec_score input e"
    using assms(1,2) by (rule foldl_step_below)
  then have "spec_step input ?mid e = result_of e (spec_score input e)"
    by (simp add: spec_step_def)
  moreover have "foldl (spec_step input) (result_of e (spec_score input e)) post
      = result_of e (spec_score input e)"
    using assms(3) by (intro foldl_step_keep) (simp add: result_of_def)
  ultimately show ?thesis by simp
qed

lemma foldl_step_cases:
  "foldl (spec_step input) best xs = best \<or>
   (\<exists>e\<in>set xs. foldl (spec_step input) best xs = result_of e (spec_score input e)
       \<and> confidence best < spec_score input e)"
proof (induction xs arbitrary: best)
  case Nil
  show ?case by simp
next
  case (Cons x xs)
  show ?case
  proof (cases "confidence best < spec_score input x")
    case True
    from Cons.IH[of "result_of x (spec_score input x)"] True show ?thesis
      by (auto simp: spec_step_def result_of_def)
  next
    case False
    from Cons.IH[of best] False show ?thesis
      by (auto simp: spec_step_def)
  qed
qed

lemma predictIcdCode_cases:
  "predictIcdCode input = fallback \<or>
   (\<exists>e\<in>set sampleData. predictIcdCode input = result_of e (spec_score input e)
       \<and> 3 / 10 < spec_score input e)"
  using foldl_step_cases[of input fallback sampleData]
  by (simp add: predictIcdCode_def predict_over_spec spec_match_def fallback_def)

lemma sampleData_codes: "e \<in> set sampleData \<Longrightarrow> sample_code e \<noteq> ''Z00.00''"
  by (auto simp: sampleData_def)

subsection \<open>An empty input token\<close>

text \<open>
  The empty string occurs in every string, so an empty token among the input words
  matches every word of every sample.
\<close>

lemma word_matches_empty_token: "[] \<in> set iw \<Longrightarrow> word_matches iw w"
  unfolding word_matches_def array_some_iff using includes_str_empty by blast

lemma count_matches_empty_token:
  "[] \<in> set iw \<Longrightarrow> count_matches iw ws k = k + length ws"
  by (simp add: count_matches_filter word_matches_empty_token)

lemma sample_confidence_empty_token:
  assumes "[] \<in> set (split_on CHR '' '' ni)"
  shows "sample_confidence ni e = Some (95 / 100)"
proof -
  have "length (split_on CHR '' '' (toLowerCase (diagnosis e))) \<noteq> 0"
    by (simp add: split_on_not_Nil)
  then show ?thesis
    using assms
    by (simp add: sample_confidence_def Let_def count_matches_empty_token js_div_def)
qed

lemma sample_confidence_defined: "\<exists>c. sample_confidence ni sample = Some c"
proof -
  have "length (split_on CHR '' '' (toLowerCase (diagnosis sample))) \<noteq> 0"
    by (simp add: split_on_not_Nil)
  then show ?thesis
    by (simp add: sample_confidence_def Let_def js_div_def)
qed

section \<open>The claims of the specification\<close>

text \<open>
  C1. For every input and every reference entry, the score the loop computes for the
  entry is \<open>min(0.95, (m / n) * 0.9 + 0.1)\<close>, where \<open>n\<close> counts the tokens of the
  lower-cased label split on single spaces and \<open>m\<close> counts those label tokens for which
  some token of the lower-cased, trimmed, space-split input is a substring of the label
  token or has the label token as a substring. The right-hand side is \<open>spec_score\<close>,
  written from that sentence; the left-hand side is the loop body of the source, and
  its value is a number (\<open>Some\<close>), never \<open>NaN\<close>.
\<close>

theorem predictIcdCode_entry_score:
  "sample_confidence (trim (toLowerCase input)) sample = Some (spec_score input sample)"
  by (rule sample_confidence_spec)

text \<open>
  C2. The result for an input is the outcome of the pass the specification describes:
  the running best starts as the fallback, the entries are taken in table order, and
  the running best is replaced exactly when an entry's score is strictly above its
  confidence (\<open>spec_match\<close>). Consequently the fallback is returned when no entry
  scores above 0.3, and otherwise the entry returned is the first one whose score is
  above 0.3, strictly above every earlier score and at least every later one, so that a
  tie keeps the earlier entry; the result carries that entry's code, its score and its
  original diagnosis text.
\<close>

theorem predictIcdCode_selection:
  "predictIcdCode input = spec_match input sampleData
   \<and> ((\<forall>e\<in>set sampleData. spec_score input e \<le> 3 / 10) \<longrightarrow> predictIcdCode input = fallback)
   \<and> (\<forall>pre e post.
         sampleData = pre @ e # post
         \<and> 3 / 10 < spec_score input e
         \<and> (\<forall>x\<in>set pre. spec_score input x < spec_score input e)
         \<and> (\<forall>x\<in>set post. spec_score input x \<le> spec_score input e)
       \<longrightarrow> predictIcdCode input = result_of e (spec_score input e))"
proof (intro conjI allI impI)
  show run: "predictIcdCode input = spec_match input sampleData"
    by (simp add: predictIcdCode_def predict_over_spec)
  show "predictIcdCode input = fallback"
    if "\<forall>e\<in>set sampleData. spec_score input e \<le> 3 / 10"
  proof -
    from that have "\<forall>e\<in>set sampleData. spec_score input e \<le> confidence fallback"
      by (simp add: fallback_def)
    then show ?thesis
      unfolding run spec_match_def by (rule foldl_step_keep)
  qed
  show "predictIcdCode input = result_of e (spec_score input e)"
    if "sampleData = pre @ e # post
         \<and> 3 / 10 < spec_score input e
         \<and> (\<forall>x\<in>set pre. spec_score input x < spec_score input e)
         \<and> (\<forall>x\<in>set post. spec_score input x \<le> spec_score input e)"
    for pre e post
  proof -
    from that have table: "sampleData = pre @ e # post"
      by simp
    from that have "confidence fallback < spec_score input e"
      by (simp add: fallback_def)
    with that show ?thesis
      unfolding run spec_match_def table by (intro foldl_step_first_max) simp_all
  qed
qed

text \<open>
  The selection at two inputs: for \<open>kidney stone\<close> the fifth entry is the only one with
  a matching token and wins with a third of its tokens matched; for \<open>xyz\<close> no entry
  scores above the fallback.
\<close>

theorem predictIcdCode_selection_witness:
  "predictIcdCode ''kidney stone''
     = \<lparr>code = ''N18.9'', confidence = 4 / 10, description = ''Chronic kidney disease''\<rparr>
   \<and> predictIcdCode ''xyz'' = fallback"
proof
  let ?pre = "[\<lparr>diagnosis = ''Type 2 diabetes mellitus'', sample_code = ''E11.9''\<rparr>,
      \<lparr>diagnosis = ''Essential hypertension'', sample_code = ''I10''\<rparr>,
      \<lparr>diagnosis = ''Acute bronchitis'', sample_code = ''J20.9''\<rparr>,
      \<lparr>diagnosis = ''Migraine'', sample_code = ''G43.9''\<rparr>]"
  let ?e = "\<lparr>diagnosis = ''Chronic kidney disease'', sample_code = ''N18.9''\<rparr>"
  let ?post = "[\<lparr>diagnosis = ''Asthma'', sample_code = ''J45.9''\<rparr>]"
  have table: "sampleData = ?pre @ ?e # ?post"
    by (simp add: sampleData_def)
  have "map (spec_score ''kidney stone'') sampleData
      = [1 / 10, 1 / 10, 1 / 10, 1 / 10, 4 / 10, 1 / 10]"
    by (rule spec_scores_eval) code_simp
  then have scores: "map (spec_score ''kidney stone'') ?pre = [1 / 10, 1 / 10, 1 / 10, 1 / 10]"
      "spec_score ''kidney stone'' ?e = 4 / 10"
      "map (spec_score ''kidney stone'') ?post = [1 / 10]"
    by (simp_all only: sampleData_def list.map list.inject simp_thms)
  from predictIcdCode_selection[of "''kidney stone''"]
  have "sampleData = ?pre @ ?e # ?post
         \<and> 3 / 10 < spec_score ''kidney stone'' ?e
         \<and> (\<forall>x\<in>set ?pre. spec_score ''kidney stone'' x < spec_score ''kidney stone'' ?e)
         \<and> (\<forall>x\<in>set ?post. spec_score ''kidney stone'' x \<le> spec_score ''kidney stone'' ?e)
       \<longrightarrow> predictIcdCode ''kidney stone'' = result_of ?e (spec_score ''kidney stone'' ?e)"
    by blast
  moreover from scores have "3 / 10 < spec_score ''kidney stone'' ?e"
      "\<forall>x\<in>set ?pre. spec_score ''kidney stone'' x < spec_score ''kidney stone'' ?e"
      "\<forall>x\<in>set ?post. spec_score ''kidney stone'' x \<le> spec_score ''kidney stone'' ?e"
    by simp_all
  ultimately have "predictIcdCode ''kidney stone'' = result_of ?e (spec_score ''kidney stone'' ?e)"
    using table by blast
  then show "predictIcdCode ''kidney stone''
     = \<lparr>code = ''N18.9'', confidence = 4 / 10, description = ''Chronic kidney disease''\<rparr>"
    by (simp add: scores(2) result_of_def)
next
  have "map (spec_score ''xyz'') sampleData = [1 / 10, 1 / 10, 1 / 10, 1 / 10, 1 / 10, 1 / 10]"
    by (rule spec_scores_eval) code_simp
  then have "\<forall>x\<in>set sampleData. spec_score ''xyz'' x \<le> 3 / 10"
    by (simp add: sampleData_def)
  with predictIcdCode_selection[of "''xyz''"] show "predictIcdCode ''xyz'' = fallback"
    by blast
qed

text \<open>
  C3. For every input the confidence of the result lies between 0 and 0.95 and is at
  least 0.3. A result whose code is not the fallback's \<open>Z00.00\<close> has a confidence
  strictly above 0.3; a result with the code \<open>Z00.00\<close> is the fallback itself, whose
  confidence is exactly 0.3.
\<close>

theorem predictIcdCode_confidence_range:
  "0 \<le> confidence (predictIcdCode input)
   \<and> confidence (predictIcdCode input) \<le> 95 / 100
   \<and> 3 / 10 \<le> confidence (predictIcdCode input)
   \<and> (code (predictIcdCode input) \<noteq> ''Z00.00'' \<longrightarrow> 3 / 10 < confidence (predictIcdCode input))
   \<and> (code (predictIcdCode input) = ''Z00.00'' \<longrightarrow>
        predictIcdCode input = fallback \<and> confidence (predictIcdCode input) = 3 / 10)"
proof -
  consider (default) "predictIcdCode input = fallback"
    | (entry) e where "e \<in> set sampleData"
        "predictIcdCode input = result_of e (spec_score input e)" "3 / 10 < spec_score input e"
    using predictIcdCode_cases[of input] by blast
  then show ?thesis
  proof cases
    case default
    then show ?thesis by (simp add: fallback_def)
  next
    case entry
    have "spec_score input e \<le> 95 / 100"
      using spec_score_bounds[of input e] by simp
    moreover have "sample_code e \<noteq> ''Z00.00''"
      using entry(1) by (rule sampleData_codes)
    ultimately show ?thesis
      using entry(2,3) by (simp add: result_of_def)
  qed
qed

text \<open>
  Both implications at concrete inputs: \<open>asthma\<close> is answered by a table entry, \<open>xyz\<close>
  by the fallback.
\<close>

theorem predictIcdCode_confidence_range_witness:
  "code (predictIcdCode ''asthma'') \<noteq> ''Z00.00''
   \<and> 3 / 10 < confidence (predictIcdCode ''asthma'')
   \<and> code (predictIcdCode ''xyz'') = ''Z00.00''
   \<and> predictIcdCode ''xyz'' = fallback
   \<and> confidence (predictIcdCode ''xyz'') = 3 / 10"
proof -
  have a: "code (predictIcdCode ''asthma'') \<noteq> ''Z00.00''"
    by code_simp
  have x: "code (predictIcdCode ''xyz'') = ''Z00.00''"
    by code_simp
  from a x predictIcdCode_confidence_range[of "''asthma''"]
    predictIcdCode_confidence_range[of "''xyz''"]
  show ?thesis by blast
qed

text \<open>
  C4. When the input is empty or consists of whitespace only, or more generally when
  the trimmed, lower-cased input split on single spaces has an empty token, every label
  token of every entry counts as matched, every entry scores 0.95, and the result is
  the first entry of the table, \<open>E11.9\<close> with confidence 0.95, not the fallback.
\<close>

theorem predictIcdCode_empty_token:
  assumes "(\<forall>c\<in>set input. is_whitespace c)
     \<or> [] \<in> set (split_on CHR '' '' (trim (toLowerCase input)))"
  shows "(\<forall>e. \<forall>w\<in>set (split_on CHR '' '' (toLowerCase (diagnosis e))).
            word_matches (split_on CHR '' '' (trim (toLowerCase input))) w)
     \<and> (\<forall>e. sample_confidence (trim (toLowerCase input)) e = Some (95 / 100))
     \<and> predictIcdCode input
         = \<lparr>code = ''E11.9'', confidence = 95 / 100, description = ''Type 2 diabetes mellitus''\<rparr>"
proof -
  have token: "[] \<in> set (split_on CHR '' '' (trim (toLowerCase input)))"
    using assms
  proof
    assume "\<forall>c\<in>set input. is_whitespace c"
    then have "trim (toLowerCase input) = []"
      by (rule trim_all_whitespace)
    then show ?thesis by (simp add: split_on_def)
  qed
  have score: "sample_confidence (trim (toLowerCase input)) e = Some (95 / 100)" for e
    using token by (rule sample_confidence_empty_token)
  have "predictIcdCode input
      = \<lparr>code = ''E11.9'', confidence = 95 / 100, description = ''Type 2 diabetes mellitus''\<rparr>"
    by (simp add: predictIcdCode_def predict_over_def sampleData_def fallback_def score)
  with token score show ?thesis
    by (simp add: word_matches_empty_token)
qed

text \<open>
  The empty input, an input of a space, a tab and a space, and an input with two
  consecutive spaces between its words.
\<close>

theorem predictIcdCode_empty_token_witness:
  "predictIcdCode ''''
     = \<lparr>code = ''E11.9'', confidence = 95 / 100, description = ''Type 2 diabetes mellitus''\<rparr>
   \<and> predictIcdCode [CHR '' '', CHR 0x09, CHR '' '']
     = \<lparr>code = ''E11.9'', confidence = 95 / 100, description = ''Type 2 diabetes mellitus''\<rparr>
   \<and> predictIcdCode ''kidney  stone''
     = \<lparr>code = ''E11.9'', confidence = 95 / 100, description = ''Type 2 diabetes mellitus''\<rparr>"
proof -
  have "\<forall>c\<in>set ''''. is_whitespace c"
    by simp
  moreover have "\<forall>c\<in>set [CHR '' '', CHR 0x09, CHR '' '']. is_whitespace c"
    by (simp add: is_whitespace_def)
  moreover have "[] \<in> set (split_on CHR '' '' (trim (toLowerCase ''kidney  stone'')))"
    by code_simp
  ultimately show ?thesis
    using predictIcdCode_empty_token[of "''''"]
      predictIcdCode_empty_token[of "[CHR '' '', CHR 0x09, CHR '' '']"]
      predictIcdCode_empty_token[of "''kidney  stone''"]
    by blast
qed

text \<open>
  C5. On the six-entry table the input \<open>Type 2 diabetes mellitus\<close> gives \<open>E11.9\<close> with
  confidence 0.95 and the label \<open>Type 2 diabetes mellitus\<close>: the label has four
  tokens, all four match, and \<open>min(0.95, (4 / 4) * 0.9 + 0.1)\<close> is 0.95.
\<close>

theorem predictIcdCode_exact_match:
  "predictIcdCode ''Type 2 diabetes mellitus''
     = \<lparr>code = ''E11.9'', confidence = 95 / 100, description = ''Type 2 diabetes mellitus''\<rparr>
   \<and> split_on CHR '' '' (toLowerCase ''Type 2 diabetes mellitus'')
     = [''type'', ''2'', ''diabetes'', ''mellitus'']
   \<and> count_matches (split_on CHR '' '' (trim (toLowerCase ''Type 2 diabetes mellitus'')))
        (split_on CHR '' '' (toLowerCase ''Type 2 diabetes mellitus'')) 0 = 4
   \<and> scaled_confidence (js_div 4 4) = Some (95 / 100)"
  by code_simp

text \<open>
  C6. On the six-entry table the input \<open>diabetes\<close> gives the entry
  \<open>Type 2 diabetes mellitus\<close> (\<open>E11.9\<close>) with confidence exactly
  \<open>(1 / 4) * 0.9 + 0.1 = 0.325\<close>: one of the four label tokens matches. The
  confidence is strictly between 0.1 and 0.95 and strictly above the fallback's 0.3.
\<close>

theorem predictIcdCode_partial_overlap:
  "predictIcdCode ''diabetes''
     = \<lparr>code = ''E11.9'', confidence = 325 / 1000, description = ''Type 2 diabetes mellitus''\<rparr>
   \<and> count_matches (split_on CHR '' '' (trim (toLowerCase ''diabetes'')))
        (split_on CHR '' '' (toLowerCase ''Type 2 diabetes mellitus'')) 0 = 1
   \<and> confidence (predictIcdCode ''diabetes'') = (1 / 4) * (9 / 10) + 1 / 10
   \<and> 1 / 10 < confidence (predictIcdCode ''diabetes'')
   \<and> confidence (predictIcdCode ''diabetes'') < 95 / 100
   \<and> confidence fallback < confidence (predictIcdCode ''diabetes'')"
  by code_simp

text \<open>
  C7. On the six-entry table the input \<open>unrelated text with no keywords\<close> gives the
  fallback \<open>Z00.00\<close> with confidence 0.3 and the label \<open>General medical examination\<close>:
  no label token of any entry matches an input token, so every entry scores 0.1.
\<close>

theorem predictIcdCode_no_overlap:
  "predictIcdCode ''unrelated text with no keywords''
     = \<lparr>code = ''Z00.00'', confidence = 3 / 10, description = ''General medical examination''\<rparr>
   \<and> map (\<lambda>sample.
          count_matches (split_on CHR '' '' (trim (toLowerCase ''unrelated text with no keywords'')))
            (split_on CHR '' '' (toLowerCase (diagnosis sample))) 0) sampleData
     = [0, 0, 0, 0, 0, 0]
   \<and> map (sample_confidence (trim (toLowerCase ''unrelated text with no keywords''))) sampleData
     = [Some (1 / 10), Some (1 / 10), Some (1 / 10), Some (1 / 10), Some (1 / 10), Some (1 / 10)]"
  by code_simp

text \<open>
  C8. The result does not depend on the case of the input: for every input and every
  reference table the result for the input is the result for the lower-cased input.
  In particular \<open>ASTHMA\<close> and \<open>asthma\<close> have the same result on the six-entry table.
\<close>

theorem predictIcdCode_case_insensitive:
  "predict_over refs input = predict_over refs (toLowerCase input)
   \<and> predictIcdCode input = predictIcdCode (toLowerCase input)
   \<and> toLowerCase ''ASTHMA'' = ''asthma''
   \<and> predictIcdCode ''ASTHMA'' = predictIcdCode ''asthma''"
proof -
  have general: "predict_over refs' s = predict_over refs' (toLowerCase s)" for refs' s
    by (simp add: predict_over_def toLowerCase_idem)
  have lower: "toLowerCase ''ASTHMA'' = ''asthma''"
    by code_simp
  have "predictIcdCode ''ASTHMA'' = predictIcdCode (toLowerCase ''ASTHMA'')"
    unfolding predictIcdCode_def by (rule general)
  with general lower show ?thesis
    by (simp add: predictIcdCode_def)
qed

text \<open>
  C10. The predictor cannot fail. Splitting a lower-cased label on spaces gives at least
  one token, so the division in the score formula never has a zero divisor and its
  quotient is a finite number whatever the match count; the score of every entry is
  therefore a number for every normalised input, the empty one included, and the
  result is always the fallback or built from an entry of the table.
\<close>

theorem predictIcdCode_total:
  "0 < length (split_on CHR '' '' (toLowerCase (diagnosis sample)))
   \<and> js_div m (length (split_on CHR '' '' (toLowerCase (diagnosis sample))))
       = Finite (of_nat m / of_nat (length (split_on CHR '' '' (toLowerCase (diagnosis sample)))))
   \<and> (\<exists>c. sample_confidence normalizedInput sample = Some c)
   \<and> (predictIcdCode input = fallback
        \<or> (\<exists>e\<in>set sampleData. \<exists>c. predictIcdCode input = result_of e c))"
proof -
  have pieces: "0 < length (split_on CHR '' '' (toLowerCase (diagnosis sample)))"
    by (simp add: split_on_not_Nil)
  moreover from pieces
  have "js_div m (length (split_on CHR '' '' (toLowerCase (diagnosis sample))))
       = Finite (of_nat m / of_nat (length (split_on CHR '' '' (toLowerCase (diagnosis sample)))))"
    by (simp add: js_div_def)
  moreover have "\<exists>c. sample_confidence normalizedInput sample = Some c"
    by (rule sample_confidence_defined)
  moreover have "predictIcdCode input = fallback
        \<or> (\<exists>e\<in>set sampleData. \<exists>c. predictIcdCode input = result_of e c)"
    using foldl_step_cases[of input fallback sampleData]
    by (auto simp: predictIcdCode_def predict_over_spec spec_match_def)
  ultimately show ?thesis by blast
qed

end
